theory Spec2Isabelle
  imports Main "HOL-Library.Sublist"
begin

section \<open>Bytes, buffers and strings\<close>

text \<open>
  A Node \<open>Buffer\<close> is a sequence of bytes. Isabelle's \<open>char\<close> is exactly one byte, so a
  buffer is a \<open>char list\<close> and the ASCII text the source searches for can be written as a
  string literal. Paths and JavaScript strings are \<open>string\<close>s.
\<close>

type_synonym byte = char
type_synonym buffer = "byte list"
type_synonym path = string

text \<open>
  \<open>buf.toString("ascii")\<close>: Node clears the highest bit of every byte before it decodes
  the byte as a character, so byte \<open>0xE1\<close> decodes to the letter \<open>a\<close>.
\<close>

fun ascii_char :: "byte \<Rightarrow> char" where
  "ascii_char (Char b0 b1 b2 b3 b4 b5 b6 b7) = Char b0 b1 b2 b3 b4 b5 b6 False"

definition toString_ascii :: "buffer \<Rightarrow> string" where
  "toString_ascii buf = map ascii_char buf"

text \<open>
  \<open>Buffer.from(str, "ascii")\<close> keeps the low byte of every character; the characters of
  the model are bytes already.
\<close>

definition Buffer_from_ascii :: "string \<Rightarrow> buffer" where
  "Buffer_from_ascii s = s"

text \<open>\<open>buf.slice(start, end)\<close> for \<open>0 \<le> start \<le> end\<close>; the end is clamped to the buffer.\<close>

definition slice :: "buffer \<Rightarrow> nat \<Rightarrow> nat \<Rightarrow> buffer" where
  "slice buf start end' = take (end' - start) (drop start buf)"

text \<open>
  \<open>buf.indexOf(value, byteOffset)\<close>: the least index at or after \<open>byteOffset\<close> where
  \<open>value\<close> occurs, \<open>None\<close> for the source's \<open>-1\<close>. \<open>find_at pat xs k\<close> scans \<open>xs\<close>, whose
  first byte stands at index \<open>k\<close> of the buffer. An empty \<open>value\<close> is found at the offset,
  clamped to the length of the buffer.
\<close>

fun find_at :: "'a list \<Rightarrow> 'a list \<Rightarrow> nat \<Rightarrow> nat option" where
  "find_at pat [] k = (if pat = [] then Some k else None)"
| "find_at pat (x # xs) k = (if prefix pat (x # xs) then Some k else find_at pat xs (Suc k))"

definition indexOf :: "'a list \<Rightarrow> 'a list \<Rightarrow> nat \<Rightarrow> nat option" where
  "indexOf buf pat start =
     (if pat = [] then Some (min start (length buf)) else find_at pat (drop start buf) start)"

text \<open>The regular expression \<open>/^[0-9a-f]{64}$/\<close>.\<close>

definition is_lower_hex :: "char \<Rightarrow> bool" where
  "is_lower_hex c = (c \<in> set ''0123456789abcdef'')"

definition is_hash :: "string \<Rightarrow> bool" where
  "is_hash s = (length s = 64 \<and> list_all is_lower_hex s)"

section \<open>The runtime and the file system\<close>

datatype errno = ENOENT | EBUSY | EPERM | EACCES

text \<open>The exceptions the source's calls can throw: a failed \<open>fs\<close> call, or a \<open>RangeError\<close>.\<close>

datatype exn = FsError errno path | RangeError

text \<open>
  The value \<open>JSON.parse\<close> returns. A number is kept as its text.
\<close>

datatype json = JNull | JBool bool | JNumber string | JString string
  | JArray "json list" | JObject "(string \<times> json) list"

text \<open>
  The record \<open>findClaudeInstall\<close> returns when \<open>found\<close> is true.
\<close>

record install =
  version :: string
  appDir :: path
  resourcesDir :: path
  asarPath :: path
  exePath :: path
  allVersions :: "string list"

text \<open>The files of an extracted archive: relative path to text.\<close>

type_synonym tree = "path \<rightharpoonup> string"

text \<open>
  \<open>asar.createPackage(tempDir, asarPath)\<close> either writes the whole archive, or throws with
  a message and leaves at \<open>asarPath\<close> whatever it had written (\<open>None\<close>: no file).
\<close>

datatype pack_outcome = Packed buffer | PackFailed string "buffer option"

text \<open>
  What the functions below take as given, fixed for one invocation:
  \<^item> \<open>max_length_extra\<close>: how far \<open>buffer.constants.MAX_LENGTH\<close>, the largest size
    \<open>Buffer.alloc\<close> grants, lies above \<open>2^30 - 1\<close>, its value on 32-bit architectures and
    the least it has on any;
  \<^item> \<open>sha256_hex\<close>: \<open>crypto.createHash("sha256").update(b).digest("hex")\<close>;
  \<^item> \<open>locked\<close>: the paths another process holds, so that opening them for writing fails
    with \<open>EBUSY\<close>, from the probes of \<open>preflight\<close> to the last write of \<open>patch\<close>;
  \<^item> \<open>locked_on_restore\<close>: the paths another process holds at the moment a failed \<open>patch\<close>
    calls \<open>restoreBackup\<close>; a file that was free when \<open>preflight\<close> probed it can be held
    by then;
  \<^item> \<open>claude_running\<close>: whether \<open>tasklist\<close> lists \<open>claude.exe\<close>;
  \<^item> \<open>located\<close>: what the directory scan of \<open>findClaudeInstall\<close> returns, the error text
    when \<open>found\<close> is false;
  \<^item> \<open>json_parse\<close> (\<open>None\<close> when it throws) and \<open>json_stringify\<close>;
  \<^item> \<open>tool_version\<close> (from \<open>package.json\<close>) and \<open>now_iso\<close> (the clock);
  \<^item> \<open>asar_extractAll\<close> and \<open>asar_createPackage\<close> of the \<open>@electron/asar\<close> package;
  \<^item> \<open>getRtlPayload\<close> and \<open>isCodePatched\<close>: the text the payload module returns and its
    test \<open>isPatched\<close>; no property below depends on what the text is;
  \<^item> \<open>string_replace\<close>: \<open>String.prototype.replace\<close> with a string pattern.
\<close>

record env =
  max_length_extra :: nat
  sha256_hex :: "buffer \<Rightarrow> string"
  locked :: "path \<Rightarrow> bool"
  locked_on_restore :: "path \<Rightarrow> bool"
  claude_running :: bool
  located :: "string + install"
  json_parse :: "buffer \<Rightarrow> json option"
  json_stringify :: "json \<Rightarrow> buffer"
  tool_version :: string
  now_iso :: string
  asar_extractAll :: "buffer \<Rightarrow> string + tree"
  asar_createPackage :: "tree \<Rightarrow> pack_outcome"
  getRtlPayload :: string
  isCodePatched :: "string \<Rightarrow> bool"
  string_replace :: "string \<Rightarrow> string \<Rightarrow> string \<Rightarrow> string"

text \<open>The files on disk: path to content. A call that fails leaves them as they were.\<close>

type_synonym fs = "path \<rightharpoonup> buffer"

definition existsSync :: "fs \<Rightarrow> path \<Rightarrow> bool" where
  "existsSync files p = (files p \<noteq> None)"

definition readFileSync :: "fs \<Rightarrow> path \<Rightarrow> exn + buffer" where
  "readFileSync files p =
     (case files p of None \<Rightarrow> Inl (FsError ENOENT p) | Some b \<Rightarrow> Inr b)"

definition writeFileSync :: "env \<Rightarrow> fs \<Rightarrow> path \<Rightarrow> buffer \<Rightarrow> exn + fs" where
  "writeFileSync e files p b =
     (if locked e p then Inl (FsError EBUSY p) else Inr (files(p \<mapsto> b)))"

definition copyFileSync :: "env \<Rightarrow> fs \<Rightarrow> path \<Rightarrow> path \<Rightarrow> exn + fs" where
  "copyFileSync e files src dst =
     (case files src of
        None \<Rightarrow> Inl (FsError ENOENT src)
      | Some b \<Rightarrow> if locked e dst then Inl (FsError EBUSY dst) else Inr (files(dst \<mapsto> b)))"

definition unlinkSync :: "env \<Rightarrow> fs \<Rightarrow> path \<Rightarrow> exn + fs" where
  "unlinkSync e files p =
     (if files p = None then Inl (FsError ENOENT p)
      else if locked e p then Inl (FsError EBUSY p)
      else Inr (files(p := None)))"

text \<open>\<open>fs.statSync(p).size\<close>.\<close>

definition statSync_size :: "fs \<Rightarrow> path \<Rightarrow> exn + nat" where
  "statSync_size files p =
     (case files p of None \<Rightarrow> Inl (FsError ENOENT p) | Some b \<Rightarrow> Inr (length b))"

text \<open>\<open>fs.openSync(p, "r+")\<close> followed by \<open>closeSync\<close>: only the error matters.\<close>

definition open_rw :: "env \<Rightarrow> fs \<Rightarrow> path \<Rightarrow> errno option" where
  "open_rw e files p =
     (if files p = None then Some ENOENT else if locked e p then Some EBUSY else None)"

text \<open>\<open>Buffer.alloc(n)\<close>: zero-filled, a \<open>RangeError\<close> beyond the largest size.\<close>

definition MAX_LENGTH :: "env \<Rightarrow> nat" where
  "MAX_LENGTH e = 1073741823 + max_length_extra e"

definition Buffer_alloc :: "env \<Rightarrow> nat \<Rightarrow> exn + buffer" where
  "Buffer_alloc e n = (if n > MAX_LENGTH e then Inl RangeError else Inr (replicate n (CHR 0x00)))"

text \<open>
  \<open>fs.readSync(fd, buffer, offset, length, position)\<close> on the open file \<open>file\<close>. Node takes
  \<open>length\<close> as a signed 32-bit integer (\<open>length |= 0\<close>): with 0 it reads nothing, and a
  negative one (\<open>2^31\<close> and more, before the wrap) it refuses, as it refuses an
  \<open>offset + length\<close> that passes the end of the buffer. Otherwise it copies the bytes the
  file has from \<open>position\<close>, at most \<open>length\<close> of them, into \<open>buffer\<close> at \<open>offset\<close>, and
  leaves the rest of the buffer as it was.
\<close>

definition readSync :: "buffer \<Rightarrow> buffer \<Rightarrow> nat \<Rightarrow> nat \<Rightarrow> nat \<Rightarrow> exn + buffer" where
  "readSync file buf off len pos =
     (let l = len mod 4294967296 in
      if l = 0 then Inr buf
      else if l \<ge> 2147483648 then Inl RangeError
      else if off + l > length buf then Inl RangeError
      else let data = take l (drop pos file)
           in Inr (take off buf @ data @ drop (off + length data) buf))"

text \<open>\<open>buf.readUInt32LE(off)\<close>: a \<open>RangeError\<close> when four bytes are not there.\<close>

definition readUInt32LE :: "buffer \<Rightarrow> nat \<Rightarrow> exn + nat" where
  "readUInt32LE buf off =
     (if off + 4 > length buf then Inl RangeError
      else Inr (of_char (buf ! off) + 256 * of_char (buf ! (off + 1))
                + 65536 * of_char (buf ! (off + 2)) + 16777216 * of_char (buf ! (off + 3))))"

section \<open>Integrity: the header hash and the hash in the executable\<close>

text \<open>
  \<open>computeAsarHeaderHash\<close>: opens the archive (an exception when it is not there), reads
  16 bytes into a zero-filled buffer, takes the header length from offset 12, reads that
  many bytes from offset 16 into a second zero-filled buffer and hashes that buffer.
  The number of bytes \<open>readSync\<close> has read is not looked at. An exception of \<open>Buffer.alloc\<close>
  or \<open>readSync\<close> leaves the function as it is thrown.
\<close>

definition computeAsarHeaderHash :: "env \<Rightarrow> fs \<Rightarrow> path \<Rightarrow> exn + string" where
  "computeAsarHeaderHash e files asarP =
     (case files asarP of
        None \<Rightarrow> Inl (FsError ENOENT asarP)
      | Some file \<Rightarrow>
          (case Buffer_alloc e 16 of
             Inl x \<Rightarrow> Inl x
           | Inr meta0 \<Rightarrow>
               (case readSync file meta0 0 16 0 of
                  Inl x \<Rightarrow> Inl x
                | Inr headerMeta \<Rightarrow>
                    (case readUInt32LE headerMeta 12 of
                       Inl x \<Rightarrow> Inl x
                     | Inr headerStringLength \<Rightarrow>
                         (case Buffer_alloc e headerStringLength of
                            Inl x \<Rightarrow> Inl x
                          | Inr hs0 \<Rightarrow>
                              (case readSync file hs0 0 headerStringLength 16 of
                                 Inl x \<Rightarrow> Inl x
                               | Inr headerString \<Rightarrow> Inr (sha256_hex e headerString)))))))"

text \<open>The text that stands before the hash in the executable.\<close>

definition pattern :: "byte list" where
  \<open>pattern = ''"alg":"SHA256","value":"''\<close>

text \<open>
  What \<open>readEmbeddedHash\<close> returns: \<open>{found: true, hash, offset}\<close>, or \<open>found: false\<close> with
  one of its two messages ("Could not find integrity hash in exe", "Found pattern but hash
  is invalid: ...").
\<close>

datatype embedded_hash = HashFound string nat | HashMissing | HashInvalid string

definition readEmbeddedHash :: "fs \<Rightarrow> path \<Rightarrow> exn + embedded_hash" where
  "readEmbeddedHash files exeP =
     (case readFileSync files exeP of
        Inl x \<Rightarrow> Inl x
      | Inr buf \<Rightarrow>
          (case indexOf buf pattern 0 of
             None \<Rightarrow> Inr HashMissing
           | Some idx \<Rightarrow>
               (let hashStart = idx + length pattern;
                    hash = toString_ascii (slice buf hashStart (hashStart + 64))
                in if \<not> is_hash hash then Inr (HashInvalid hash)
                   else Inr (HashFound hash hashStart))))"

text \<open>
  What \<open>patchExeHash\<close> returns: success after the rewrite, success with "Hashes are
  identical, no change needed", or failure with "Invalid hash format", "Could not find old
  hash in exe" or "Old hash appears multiple times in exe".
\<close>

datatype hash_patch = HashPatched | HashesIdentical | InvalidHashFormat | OldHashNotFound
  | OldHashAmbiguous

text \<open>\<open>src.copy(target, at)\<close>: as many bytes of \<open>src\<close> as fit into \<open>target\<close> from \<open>at\<close>.\<close>

definition buffer_copy :: "buffer \<Rightarrow> buffer \<Rightarrow> nat \<Rightarrow> buffer" where
  "buffer_copy src target at =
     take at target @ take (length target - at) src @ drop (at + length src) target"

definition patchExeHash :: "env \<Rightarrow> fs \<Rightarrow> path \<Rightarrow> string \<Rightarrow> string \<Rightarrow> exn + fs \<times> hash_patch" where
  "patchExeHash e files exeP oldHash newHash =
     (if oldHash = newHash then Inr (files, HashesIdentical)
      else if \<not> is_hash oldHash \<or> \<not> is_hash newHash then Inr (files, InvalidHashFormat)
      else
        (case readFileSync files exeP of
           Inl x \<Rightarrow> Inl x
         | Inr buf \<Rightarrow>
             (let oldBuf = Buffer_from_ascii oldHash in
              case indexOf buf oldBuf 0 of
                None \<Rightarrow> Inr (files, OldHashNotFound)
              | Some idx \<Rightarrow>
                  (case indexOf buf oldBuf (idx + 64) of
                     Some secondIdx \<Rightarrow> Inr (files, OldHashAmbiguous)
                   | None \<Rightarrow>
                       (let newBuf = Buffer_from_ascii newHash;
                            buf' = buffer_copy newBuf buf idx
                        in case writeFileSync e files exeP buf' of
                             Inl x \<Rightarrow> Inl x
                           | Inr files' \<Rightarrow> Inr (files', HashPatched))))))"

section \<open>Backups and the marker\<close>

definition MARKER_FILE :: string where
  "MARKER_FILE = ''.rtl-patched.json''"

text \<open>\<open>path.join\<close> of a directory and a plain name, on Windows.\<close>

definition path_join :: "path \<Rightarrow> string \<Rightarrow> path" where
  "path_join dir name = dir @ [CHR 0x5C] @ name"

definition getMarkerPath :: "path \<Rightarrow> path" where
  "getMarkerPath resDir = path_join resDir MARKER_FILE"

text \<open>The three fields of \<open>getBackupPaths\<close>.\<close>

definition asarBackup :: "install \<Rightarrow> path" where
  "asarBackup i = asarPath i @ ''.bak''"

definition exeBackup :: "install \<Rightarrow> path" where
  "exeBackup i = exePath i @ ''.bak''"

definition markerPath :: "install \<Rightarrow> path" where
  "markerPath i = getMarkerPath (resourcesDir i)"

text \<open>
  What \<open>createBackup\<close> returns: \<open>skipped: true\<close>, \<open>skipped: false\<close>, or failure with the
  exception of the copy that failed.
\<close>

datatype backup_result = BackupSkipped | BackupCreated | BackupFailed exn

text \<open>The \<open>catch\<close> of \<open>createBackup\<close>: both unlinks, each with its error swallowed.\<close>

definition unlink_quiet :: "env \<Rightarrow> fs \<Rightarrow> path \<Rightarrow> fs" where
  "unlink_quiet e files p = (case unlinkSync e files p of Inl x \<Rightarrow> files | Inr files' \<Rightarrow> files')"

definition createBackup :: "env \<Rightarrow> install \<Rightarrow> fs \<Rightarrow> fs \<times> backup_result" where
  "createBackup e i files =
     (if existsSync files (asarBackup i) \<and> existsSync files (exeBackup i)
      then (files, BackupSkipped)
      else
        (case copyFileSync e files (asarPath i) (asarBackup i) of
           Inl x \<Rightarrow> (unlink_quiet e (unlink_quiet e files (asarBackup i)) (exeBackup i), BackupFailed x)
         | Inr files1 \<Rightarrow>
             (case copyFileSync e files1 (exePath i) (exeBackup i) of
                Inl x \<Rightarrow>
                  (unlink_quiet e (unlink_quiet e files1 (asarBackup i)) (exeBackup i), BackupFailed x)
              | Inr files2 \<Rightarrow> (files2, BackupCreated))))"

text \<open>
  What \<open>restoreBackup\<close> returns: success, "Backup files not found", or "Failed to restore
  backups" with the exception.
\<close>

datatype restore_result = Restored | BackupMissing | RestoreFailed exn

definition restoreBackup :: "env \<Rightarrow> install \<Rightarrow> fs \<Rightarrow> fs \<times> restore_result" where
  "restoreBackup e i files =
     (if \<not> existsSync files (asarBackup i) \<or> \<not> existsSync files (exeBackup i)
      then (files, BackupMissing)
      else
        (case copyFileSync e files (asarBackup i) (asarPath i) of
           Inl x \<Rightarrow> (files, RestoreFailed x)
         | Inr files1 \<Rightarrow>
        (case copyFileSync e files1 (exeBackup i) (exePath i) of
           Inl x \<Rightarrow> (files1, RestoreFailed x)
         | Inr files2 \<Rightarrow>
        (case unlinkSync e files2 (asarBackup i) of
           Inl x \<Rightarrow> (files2, RestoreFailed x)
         | Inr files3 \<Rightarrow>
        (case unlinkSync e files3 (exeBackup i) of
           Inl x \<Rightarrow> (files3, RestoreFailed x)
         | Inr files4 \<Rightarrow>
        (if existsSync files4 (markerPath i)
         then (case unlinkSync e files4 (markerPath i) of
                 Inl x \<Rightarrow> (files4, RestoreFailed x)
               | Inr files5 \<Rightarrow> (files5, Restored))
         else (files4, Restored)))))))"

definition writeMarker :: "env \<Rightarrow> install \<Rightarrow> string \<Rightarrow> string \<Rightarrow> fs \<Rightarrow> exn + fs" where
  "writeMarker e i oldHash newHash files =
     (let data = JObject
            [(''tool'', JString ''claude-rtl-fixer''),
             (''version'', JString (tool_version e)),
             (''patchedAt'', JString (now_iso e)),
             (''claudeVersion'', JString (version i)),
             (''hashes'', JObject [(''original'', JString oldHash), (''patched'', JString newHash)])]
      in writeFileSync e files (getMarkerPath (resourcesDir i)) (json_stringify e data))"

text \<open>What \<open>isPatchedOnDisk\<close> returns; \<open>info\<close> is \<open>None\<close> for a missing or null \<open>info\<close>.\<close>

record patch_status =
  patched :: bool
  info :: "json option"

definition isPatchedOnDisk :: "env \<Rightarrow> install \<Rightarrow> fs \<Rightarrow> patch_status" where
  "isPatchedOnDisk e i files =
     (let mp = getMarkerPath (resourcesDir i) in
      if \<not> existsSync files mp then \<lparr>patched = False, info = None\<rparr>
      else
        (case readFileSync files mp of
           Inl x \<Rightarrow> \<lparr>patched = True, info = None\<rparr>
         | Inr body \<Rightarrow>
             (case json_parse e body of
                None \<Rightarrow> \<lparr>patched = True, info = None\<rparr>
              | Some data \<Rightarrow> \<lparr>patched = True, info = Some data\<rparr>)))"


section \<open>The patch transaction\<close>

definition MAIN_VIEW_PATH :: path where
  "MAIN_VIEW_PATH = ''.vite/build/mainView.js''"

definition sourceMapComment :: string where
  "sourceMapComment = ''//# sourceMappingURL=mainView.js.map''"

text \<open>
  \<open>canWrite\<close>: false only when opening for read and write fails with \<open>EBUSY\<close>, \<open>EPERM\<close> or
  \<open>EACCES\<close>; any other error counts as writable.
\<close>

definition canWrite :: "env \<Rightarrow> fs \<Rightarrow> path \<Rightarrow> bool" where
  "canWrite e files p =
     (case open_rw e files p of
        None \<Rightarrow> True
      | Some code \<Rightarrow> if code = EBUSY \<or> code = EPERM \<or> code = EACCES then False else True)"

text \<open>
  The error results of \<open>preflight\<close> and \<open>patch\<close>, one constructor for each \<open>return\<close> with
  \<open>success: false\<close>, in the order of the source: the locator's error, "Claude Desktop is
  currently running", "Cannot write to" a path, "already patched with RTL fix", the two
  errors of \<open>readEmbeddedHash\<close>, "Integrity mismatch" (hash of the executable, hash of the
  archive), the error of \<open>createBackup\<close>, "Failed to extract app.asar", "mainView.js not
  found", "mainView.js already contains RTL fix code", "Failed to repack app.asar", "Asar
  verification failed" (\<open>None\<close>: "Repacked asar is suspiciously small"), and the error of
  \<open>patchExeHash\<close>.
\<close>

datatype patch_error =
    NotInstalled string
  | ClaudeRunning
  | CannotWrite path
  | AlreadyPatched
  | EmbeddedHashMissing
  | EmbeddedHashInvalid string
  | IntegrityMismatch string string
  | BackupError exn
  | ExtractFailed string
  | MainViewMissing
  | CodeAlreadyPatched
  | RepackFailed string
  | VerificationFailed "exn option"
  | HashPatchFailed hash_patch

text \<open>
  What \<open>patch\<close> returns: \<open>{success: true, version, oldHash, newHash}\<close> or
  \<open>{success: false, error}\<close>.
\<close>

datatype patch_result = PatchSuccess string string string | PatchFailure patch_error

definition preflight :: "env \<Rightarrow> fs \<Rightarrow> bool \<Rightarrow> patch_error + install" where
  "preflight e files requireUnpatched =
     (case located e of
        Inl err \<Rightarrow> Inl (NotInstalled err)
      | Inr i \<Rightarrow>
          if claude_running e then Inl ClaudeRunning
          else if \<not> canWrite e files (asarPath i) then Inl (CannotWrite (asarPath i))
          else if \<not> canWrite e files (exePath i) then Inl (CannotWrite (exePath i))
          else if requireUnpatched \<and> patched (isPatchedOnDisk e i files) then Inl AlreadyPatched
          else Inr i)"

text \<open>\<open>content.includes(s)\<close>.\<close>

definition includes_str :: "string \<Rightarrow> string \<Rightarrow> bool" where
  "includes_str content s = (indexOf content s 0 \<noteq> None)"

text \<open>Step 6 of \<open>patch\<close>, on the text of \<open>mainView.js\<close>.\<close>

definition inject :: "env \<Rightarrow> string \<Rightarrow> string" where
  "inject e content =
     (if includes_str content sourceMapComment
      then string_replace e content sourceMapComment
             (getRtlPayload e @ [CHR 0x0A] @ sourceMapComment)
      else content @ getRtlPayload e)"

text \<open>
  The environment at the moment \<open>restoreBackup\<close> runs at the end of a failed \<open>patch\<close>: the
  files that are held then.
\<close>

definition on_restore :: "env \<Rightarrow> env" where
  "on_restore e = e\<lparr>locked := locked_on_restore e\<rparr>"

text \<open>
  Steps 7 to 10 of \<open>patch\<close>: repack from the scratch directory, check the size of the new
  archive, hash its header, rewrite the hash in the executable, write the marker. The
  result of \<open>restoreBackup\<close> is not looked at. An exception of \<open>computeAsarHeaderHash\<close>,
  \<open>patchExeHash\<close> or \<open>writeMarker\<close> leaves \<open>patch\<close> as it is thrown (\<open>Inl\<close>).
\<close>

definition patch_repack :: "env \<Rightarrow> install \<Rightarrow> string \<Rightarrow> tree \<Rightarrow> fs \<Rightarrow> fs \<times> (exn + patch_result)" where
  "patch_repack e i oldHash tempDir files =
     (case asar_createPackage e tempDir of
        PackFailed msg left \<Rightarrow>
          (fst (restoreBackup (on_restore e) i (files(asarPath i := left))),
           Inr (PatchFailure (RepackFailed msg)))
      | Packed archive \<Rightarrow>
          (let files2 = files(asarPath i \<mapsto> archive) in
           case statSync_size files2 (asarPath i) of
             Inl x \<Rightarrow>
               (fst (restoreBackup (on_restore e) i files2),
                Inr (PatchFailure (VerificationFailed (Some x))))
           | Inr sz \<Rightarrow>
               if sz < 1000
               then (fst (restoreBackup (on_restore e) i files2),
                     Inr (PatchFailure (VerificationFailed None)))
               else
                 (case computeAsarHeaderHash e files2 (asarPath i) of
                    Inl x \<Rightarrow> (files2, Inl x)
                  | Inr newHash \<Rightarrow>
                      (case patchExeHash e files2 (exePath i) oldHash newHash of
                         Inl x \<Rightarrow> (files2, Inl x)
                       | Inr (files3, r) \<Rightarrow>
                           if r \<noteq> HashPatched \<and> r \<noteq> HashesIdentical
                           then (fst (restoreBackup (on_restore e) i files3),
                                 Inr (PatchFailure (HashPatchFailed r)))
                           else
                             (case writeMarker e i oldHash newHash files3 of
                                Inl x \<Rightarrow> (files3, Inl x)
                              | Inr files4 \<Rightarrow>
                                  (files4, Inr (PatchSuccess (version i) oldHash newHash)))))))"

text \<open>
  Steps 5 and 6: extract the archive into the scratch directory (the directory of the
  model is the value \<open>tempDir\<close>, dropped by \<open>cleanup\<close>), find \<open>mainView.js\<close>, inject.
\<close>

definition patch_extract :: "env \<Rightarrow> install \<Rightarrow> string \<Rightarrow> fs \<Rightarrow> fs \<times> (exn + patch_result)" where
  "patch_extract e i oldHash files =
     (case (case files (asarPath i) of
              None \<Rightarrow> Inl ''ENOENT''
            | Some archive \<Rightarrow> asar_extractAll e archive) of
        Inl msg \<Rightarrow> (files, Inr (PatchFailure (ExtractFailed msg)))
      | Inr tempDir \<Rightarrow>
          (case tempDir MAIN_VIEW_PATH of
             None \<Rightarrow> (files, Inr (PatchFailure MainViewMissing))
           | Some content \<Rightarrow>
               if isCodePatched e content then (files, Inr (PatchFailure CodeAlreadyPatched))
               else patch_repack e i oldHash (tempDir(MAIN_VIEW_PATH \<mapsto> inject e content)) files))"

text \<open>Steps 1 to 4, then the rest.\<close>

definition patch :: "env \<Rightarrow> fs \<Rightarrow> fs \<times> (exn + patch_result)" where
  "patch e files =
     (case preflight e files True of
        Inl err \<Rightarrow> (files, Inr (PatchFailure err))
      | Inr i \<Rightarrow>
          (case readEmbeddedHash files (exePath i) of
             Inl x \<Rightarrow> (files, Inl x)
           | Inr HashMissing \<Rightarrow> (files, Inr (PatchFailure EmbeddedHashMissing))
           | Inr (HashInvalid h) \<Rightarrow> (files, Inr (PatchFailure (EmbeddedHashInvalid h)))
           | Inr (HashFound oldHash off) \<Rightarrow>
               (case computeAsarHeaderHash e files (asarPath i) of
                  Inl x \<Rightarrow> (files, Inl x)
                | Inr currentAsarHash \<Rightarrow>
                    if currentAsarHash \<noteq> oldHash
                    then (files, Inr (PatchFailure (IntegrityMismatch oldHash currentAsarHash)))
                    else
                      (case createBackup e i files of
                         (files1, BackupFailed x) \<Rightarrow> (files1, Inr (PatchFailure (BackupError x)))
                       | (files1, _) \<Rightarrow> patch_extract e i oldHash files1))))"

section \<open>The locator\<close>

text \<open>
  The end of \<open>findClaudeInstall\<close>: the record it builds from the directory of the latest
  version (\<open>latest.fullPath\<close>), the version and the list of all versions. The scan that
  finds the directory is the \<open>located\<close> of the environment.
\<close>

definition install_at :: "path \<Rightarrow> string \<Rightarrow> string list \<Rightarrow> install" where
  "install_at fullPath ver vers =
     (let resDir = path_join fullPath ''resources''
      in \<lparr>version = ver, appDir = fullPath, resourcesDir = resDir,
          asarPath = path_join resDir ''app.asar'', exePath = path_join fullPath ''claude.exe'',
          allVersions = vers\<rparr>)"

text \<open>
  The five paths an invocation works on are five different files. Every record of
  \<open>install_at\<close> has the property (\<open>paths_distinct_install_at\<close> below).
\<close>

definition paths_distinct :: "install \<Rightarrow> bool" where
  "paths_distinct i =
     distinct [asarPath i, exePath i, asarBackup i, exeBackup i, markerPath i]"

section \<open>Notions the properties are stated with\<close>

text \<open>\<open>pat\<close> stands in \<open>buf\<close> at index \<open>i\<close>.\<close>

definition occurs_at :: "'a list \<Rightarrow> 'a list \<Rightarrow> nat \<Rightarrow> bool" where
  "occurs_at pat buf i = prefix pat (drop i buf)"

text \<open>The first \<open>n\<close> bytes of \<open>b\<close>, with zero bytes where \<open>b\<close> ends before.\<close>

definition zero_pad :: "nat \<Rightarrow> buffer \<Rightarrow> buffer" where
  "zero_pad n b = take n b @ replicate (n - length b) (CHR 0x00)"





section \<open>An installation to run the functions on\<close>

text \<open>
  A digest for the examples: the hexadecimal text of the first 32 bytes, zero filled. The
  theorems hold for every \<open>sha256_hex\<close>; the examples need one that the kernel can run.
\<close>

definition hex_digit :: "nat \<Rightarrow> char" where
  "hex_digit n = ''0123456789abcdef'' ! (n mod 16)"

definition hex_byte :: "byte \<Rightarrow> string" where
  "hex_byte c = [hex_digit (of_char c div 16), hex_digit (of_char c)]"

definition first32_hex :: "buffer \<Rightarrow> string" where
  "first32_hex b =
     take 64 (concat (map hex_byte b)
              @ ''0000000000000000000000000000000000000000000000000000000000000000'')"

definition ex_install :: install where
  "ex_install = install_at ''app-1.1.0'' ''1.1.0'' [''1.1.0'']"

text \<open>A 1000-byte archive: the 16-byte prefix with header length 12, the header, the rest.\<close>

definition ex_prefix :: buffer where
  "ex_prefix =
     [CHR 0x04, CHR 0x00, CHR 0x00, CHR 0x00, CHR 0x14, CHR 0x00, CHR 0x00, CHR 0x00,
      CHR 0x10, CHR 0x00, CHR 0x00, CHR 0x00, CHR 0x0C, CHR 0x00, CHR 0x00, CHR 0x00]"

definition ex_header :: buffer where
  \<open>ex_header = ''{"files":{}}''\<close>

definition ex_header2 :: buffer where
  \<open>ex_header2 = ''{"files":[]}''\<close>

definition ex_archive :: buffer where
  "ex_archive = ex_prefix @ ex_header @ replicate 972 (CHR 0xFF)"

definition ex_repacked :: buffer where
  "ex_repacked = ex_prefix @ ex_header2 @ replicate 972 (CHR 0xEE)"

text \<open>The digests of the two headers.\<close>

definition ex_hash :: string where
  "ex_hash = ''7b2266696c6573223a7b7d7d0000000000000000000000000000000000000000''"

definition ex_hash2 :: string where
  "ex_hash2 = ''7b2266696c6573223a5b5d7d0000000000000000000000000000000000000000''"

definition ex_exe :: buffer where
  "ex_exe = ''MZ'' @ pattern @ ex_hash @ [CHR 0x22, CHR ''}'', CHR '']'']"

definition ex_files :: fs where
  "ex_files = [asarPath ex_install \<mapsto> ex_archive, exePath ex_install \<mapsto> ex_exe]"

definition ex_files_marked :: fs where
  "ex_files_marked = ex_files(markerPath ex_install \<mapsto> ''not json'')"

definition ex_env :: env where
  "ex_env = \<lparr>max_length_extra = 3221225473, sha256_hex = first32_hex, locked = (\<lambda>p. False),
     locked_on_restore = (\<lambda>p. False), claude_running = False, located = Inr ex_install,
     json_parse = (\<lambda>b. None), json_stringify = (\<lambda>j. ''{}''), tool_version = ''1.0.0'',
     now_iso = ''2025-01-01T00:00:00.000Z'',
     asar_extractAll = (\<lambda>b. Inr [MAIN_VIEW_PATH \<mapsto> ''main()'']),
     asar_createPackage = (\<lambda>t. Packed ex_repacked),
     getRtlPayload = ''/*rtl*/'', isCodePatched = (\<lambda>s. includes_str s ''/*rtl*/''),
     string_replace = (\<lambda>s p r. s)\<rparr>"


definition ex_exe_upper :: buffer where
  "ex_exe_upper = ''MZ'' @ pattern
     @ ''7B2266696C6573223A7B7D7D0000000000000000000000000000000000000000''
     @ [CHR 0x22, CHR ''}'', CHR '']'']"

text \<open>
  Executables with the marker twice: first before two bytes that are no hash, first before
  a hash, and twice in a row.
\<close>

definition ex_exe_second :: buffer where
  "ex_exe_second = ''MZ'' @ pattern @ ''XX'' @ pattern @ ex_hash"

definition ex_exe_twice :: buffer where
  "ex_exe_twice = ex_exe @ pattern @ ex_hash2"

definition ex_exe_doubled :: buffer where
  "ex_exe_doubled = pattern @ pattern @ ex_hash"

text \<open>A hash that overlaps itself, and the hash to write over it.\<close>

definition ex_a64 :: string where
  "ex_a64 = ''aaaaaaaaaaaaaaaaaaaaaaaaaaaaaaaaaaaaaaaaaaaaaaaaaaaaaaaaaaaaaaaa''"

definition ex_b64 :: string where
  "ex_b64 = ''bbbbbbbbbbbbbbbbbbbbbbbbbbbbbbbbbbbbbbbbbbbbbbbbbbbbbbbbbbbbbbbb''"

text \<open>A 20-byte archive that declares a header of 8 bytes and holds 4 of them.\<close>

definition ex_short :: buffer where
  "ex_short =
     [CHR 0x04, CHR 0x00, CHR 0x00, CHR 0x00, CHR 0x10, CHR 0x00, CHR 0x00, CHR 0x00,
      CHR 0x0C, CHR 0x00, CHR 0x00, CHR 0x00, CHR 0x08, CHR 0x00, CHR 0x00, CHR 0x00]
     @ ''abcd''"


definition ex_files_one :: fs where
  "ex_files_one = ex_files(asarBackup ex_install \<mapsto> ''old archive'')"

text \<open>
  The same environment with a repack that fails half way, and with another process that
  holds the archive by the time of the restore.
\<close>

definition ex_env_full :: env where
  "ex_env_full = ex_env\<lparr>asar_createPackage := (\<lambda>t. PackFailed ''disk full'' (Some ''PK''))\<rparr>"

definition ex_env_held :: env where
  "ex_env_held = ex_env_full\<lparr>locked_on_restore := (\<lambda>p. p = asarPath ex_install)\<rparr>"



section \<open>Lemmas\<close>

subsection \<open>Searching a buffer\<close>

lemma find_at_SomeD:
  "pat \<noteq> [] \<Longrightarrow> find_at pat xs k = Some i \<Longrightarrow>
     k \<le> i \<and> prefix pat (drop (i - k) xs) \<and> (\<forall>j<i - k. \<not> prefix pat (drop j xs))"
proof (induction xs arbitrary: k)
  case Nil
  then show ?case by simp
next
  case (Cons x xs)
  show ?case
  proof (cases "prefix pat (x # xs)")
    case True
    with Cons.prems show ?thesis by simp
  next
    case False
    with Cons.prems have f: "find_at pat xs (Suc k) = Some i" by simp
    from Cons.IH [OF Cons.prems(1) f]
    have a: "Suc k \<le> i" and b: "prefix pat (drop (i - Suc k) xs)"
      and c: "\<forall>j<i - Suc k. \<not> prefix pat (drop j xs)" by auto
    from a have d: "i - k = Suc (i - Suc k)" by simp
    have "\<forall>j<i - k. \<not> prefix pat (drop j (x # xs))"
    proof (intro allI impI)
      fix j assume "j < i - k"
      then show "\<not> prefix pat (drop j (x # xs))"
        using False c d by (cases j) auto
    qed
    with a b d show ?thesis by simp
  qed
qed

lemma find_at_NoneD:
  "pat \<noteq> [] \<Longrightarrow> find_at pat xs k = None \<Longrightarrow> \<not> prefix pat (drop j xs)"
proof (induction xs arbitrary: k j)
  case Nil
  then show ?case by simp
next
  case (Cons x xs)
  then show ?case by (cases j) (auto split: if_splits)
qed

lemma find_at_first:
  "pat \<noteq> [] \<Longrightarrow> prefix pat (drop j xs) \<Longrightarrow> (\<forall>m<j. \<not> prefix pat (drop m xs)) \<Longrightarrow>
     find_at pat xs k = Some (k + j)"
proof (induction xs arbitrary: k j)
  case Nil
  then show ?case by simp
next
  case (Cons x xs)
  show ?case
  proof (cases j)
    case 0
    with Cons.prems show ?thesis by simp
  next
    case (Suc j')
    with Cons.prems have n: "\<not> prefix pat (x # xs)" by force
    from Cons.prems Suc have p: "prefix pat (drop j' xs)" by simp
    from Cons.prems Suc have q: "\<forall>m<j'. \<not> prefix pat (drop m xs)" by force
    from Cons.IH [OF Cons.prems(1) p q, of "Suc k"] n Suc show ?thesis by simp
  qed
qed

lemma indexOf_SomeD:
  assumes "pat \<noteq> []" and "indexOf buf pat s = Some i"
  shows "s \<le> i" and "occurs_at pat buf i" and "\<And>j. s \<le> j \<Longrightarrow> j < i \<Longrightarrow> \<not> occurs_at pat buf j"
proof -
  from assms have f: "find_at pat (drop s buf) s = Some i" by (simp add: indexOf_def)
  from find_at_SomeD [OF assms(1) f]
  have a: "s \<le> i" and b: "prefix pat (drop (i - s) (drop s buf))"
    and c: "\<forall>j<i - s. \<not> prefix pat (drop j (drop s buf))" by auto
  show "s \<le> i" by (rule a)
  from a b show "occurs_at pat buf i" by (simp add: occurs_at_def)
  fix j assume "s \<le> j" "j < i"
  then have "j - s < i - s" by simp
  with c have "\<not> prefix pat (drop (j - s) (drop s buf))" by blast
  with \<open>s \<le> j\<close> show "\<not> occurs_at pat buf j" by (simp add: occurs_at_def)
qed

lemma indexOf_NoneD:
  assumes "pat \<noteq> []" and "indexOf buf pat s = None" and "s \<le> j"
  shows "\<not> occurs_at pat buf j"
proof -
  from assms have f: "find_at pat (drop s buf) s = None" by (simp add: indexOf_def)
  from find_at_NoneD [OF assms(1) f, of "j - s"] assms(3) show ?thesis
    by (simp add: occurs_at_def)
qed

lemma indexOf_first:
  assumes "pat \<noteq> []" and "s \<le> i" and "occurs_at pat buf i"
    and "\<And>j. s \<le> j \<Longrightarrow> j < i \<Longrightarrow> \<not> occurs_at pat buf j"
  shows "indexOf buf pat s = Some i"
proof -
  from assms(2,3) have p: "prefix pat (drop (i - s) (drop s buf))" by (simp add: occurs_at_def)
  have q: "\<forall>m<i - s. \<not> prefix pat (drop m (drop s buf))"
  proof (intro allI impI)
    fix m assume "m < i - s"
    then have "s \<le> s + m" "s + m < i" by simp_all
    from assms(4) [OF this] show "\<not> prefix pat (drop m (drop s buf))"
      by (simp add: occurs_at_def add.commute)
  qed
  from find_at_first [OF assms(1) p q, of s] assms(1,2) show ?thesis by (simp add: indexOf_def)
qed

lemma indexOf_absent:
  assumes "pat \<noteq> []" and "\<And>j. s \<le> j \<Longrightarrow> \<not> occurs_at pat buf j"
  shows "indexOf buf pat s = None"
proof (cases "indexOf buf pat s")
  case None
  then show ?thesis .
next
  case (Some i)
  from indexOf_SomeD(1,2) [OF assms(1) Some] assms(2) show ?thesis by blast
qed

subsection \<open>The header of the archive\<close>

lemma readSync_zero:
  "n < 2147483648 \<Longrightarrow>
     readSync file (replicate n (CHR 0x00)) 0 n pos = Inr (zero_pad n (drop pos file))"
  by (simp add: readSync_def zero_pad_def Let_def min_def)

lemma readSync_refused:
  "2147483648 \<le> n \<Longrightarrow> n < 4294967296 \<Longrightarrow> readSync file buf 0 n pos = Inl RangeError"
  by (simp add: readSync_def Let_def)

lemma length_zero_pad: "length (zero_pad n b) = n"
  by (simp add: zero_pad_def)

lemma MAX_LENGTH_ge: "16 \<le> MAX_LENGTH e"
  by (simp add: MAX_LENGTH_def)

lemma of_char_less: "(of_char c :: nat) < 256"
  by (cases c) simp

lemma readUInt32LE_less:
  assumes "readUInt32LE buf off = Inr n"
  shows "n < 4294967296"
proof -
  have "a + 256 * b + 65536 * c + 16777216 * d < 4294967296"
    if "a < 256" "b < 256" "c < 256" "d < 256" for a b c d :: nat
    using that by linarith
  from this [OF of_char_less of_char_less of_char_less of_char_less]
  have "(of_char w :: nat) + 256 * of_char x + 65536 * of_char y + 16777216 * of_char z
          < 4294967296" for w x y z .
  with assms show ?thesis
    by (auto simp: readUInt32LE_def split: if_splits)
qed

lemma computeAsarHeaderHash_padded:
  assumes "files p = Some dat"
    and "readUInt32LE (zero_pad 16 dat) 12 = Inr n"
  shows "computeAsarHeaderHash e files p =
           (if n \<le> MAX_LENGTH e \<and> n < 2147483648
            then Inr (sha256_hex e (zero_pad n (drop 16 dat)))
            else Inl RangeError)"
proof -
  have m: "readSync dat (replicate 16 (CHR 0x00)) 0 16 0 = Inr (zero_pad 16 dat)"
    using readSync_zero [of 16 dat 0] by simp
  from assms(2) have b: "n < 4294967296" by (rule readUInt32LE_less)
  show ?thesis
  proof (cases "n < 2147483648")
    case True
    with assms m MAX_LENGTH_ge [of e] show ?thesis
      by (simp add: computeAsarHeaderHash_def Buffer_alloc_def readSync_zero)
  next
    case False
    with b have "readSync dat (replicate n (CHR 0x00)) 0 n 16 = Inl RangeError"
      by (intro readSync_refused) simp_all
    with assms m MAX_LENGTH_ge [of e] False show ?thesis
      by (simp add: computeAsarHeaderHash_def Buffer_alloc_def)
  qed
qed

lemma readUInt32LE_total: "\<exists>n. readUInt32LE (zero_pad 16 dat) 12 = Inr n"
  by (simp add: readUInt32LE_def length_zero_pad)

lemma replicate_numeral: "replicate (numeral k) x = x # replicate (pred_numeral k) x"
  by (simp add: numeral_eq_Suc)

subsection \<open>The hash in the executable\<close>

lemma length_pattern: "length pattern = 24"
  by (simp add: pattern_def)

lemma pattern_nonempty: "pattern \<noteq> []"
  by (simp add: pattern_def)

lemma readEmbeddedHash_at_first:
  assumes "files p = Some buf" and "occurs_at pattern buf i"
    and "\<forall>k<i. \<not> occurs_at pattern buf k"
  shows "readEmbeddedHash files p =
           Inr (let h = toString_ascii (slice buf (i + 24) (i + 88))
                in if is_hash h then HashFound h (i + 24) else HashInvalid h)"
proof -
  from assms(2,3) have "indexOf buf pattern 0 = Some i"
    by (intro indexOf_first pattern_nonempty) auto
  with assms(1) show ?thesis
    by (simp add: readEmbeddedHash_def readFileSync_def length_pattern Let_def add.assoc)
qed

lemma readEmbeddedHash_absent:
  assumes "files p = Some buf" and "\<forall>j. \<not> occurs_at pattern buf j"
  shows "readEmbeddedHash files p = Inr HashMissing"
proof -
  from assms(2) have "indexOf buf pattern 0 = None"
    by (intro indexOf_absent pattern_nonempty) auto
  with assms(1) show ?thesis
    by (simp add: readEmbeddedHash_def readFileSync_def)
qed

lemma ascii_char_hex: "is_lower_hex c \<Longrightarrow> ascii_char c = c"
  by (auto simp: is_lower_hex_def)

lemma toString_ascii_hash: "list_all is_lower_hex h \<Longrightarrow> toString_ascii h = h"
  by (induction h) (simp_all add: toString_ascii_def ascii_char_hex)

subsection \<open>Backups and the steps of the patch\<close>









lemma canWrite_existing: "files p \<noteq> None \<Longrightarrow> canWrite e files p = (\<not> locked e p)"
  by (simp add: canWrite_def open_rw_def)

lemma readEmbeddedHash_exists: "readEmbeddedHash files p = Inr r \<Longrightarrow> files p \<noteq> None"
  by (auto simp: readEmbeddedHash_def readFileSync_def split: option.splits)





lemma locked_on_restore: "locked (on_restore e) = locked_on_restore e"
  by (simp add: on_restore_def)

lemma restoreBackup_held:
  assumes "files (asarBackup i) \<noteq> None" and "files (exeBackup i) \<noteq> None"
    and "locked e (asarPath i)"
  shows "restoreBackup e i files = (files, RestoreFailed (FsError EBUSY (asarPath i)))"
  using assms by (auto simp: restoreBackup_def existsSync_def copyFileSync_def)



subsection \<open>Rewriting the hash in place\<close>

lemma prefix_take_iff: "prefix p xs \<longleftrightarrow> length p \<le> length xs \<and> take (length p) xs = p"
  by (metis prefix_length_le take_is_prefix prefix_def append_eq_conv_conj)

lemma occurs_at_iff:
  "occurs_at pat buf i \<longleftrightarrow> length pat \<le> length buf - i \<and> take (length pat) (drop i buf) = pat"
  by (simp add: occurs_at_def prefix_take_iff)








subsection \<open>A successful patch\<close>






subsection \<open>What the guard of the rewrite catches\<close>

lemma indexOf_exists:
  assumes "pat \<noteq> []" and "s \<le> j" and "occurs_at pat buf j"
  shows "\<exists>i. indexOf buf pat s = Some i \<and> i \<le> j"
proof (cases "indexOf buf pat s")
  case None
  from indexOf_NoneD [OF assms(1) None assms(2)] assms(3) show ?thesis by simp
next
  case (Some i)
  have "i \<le> j"
  proof (rule ccontr)
    assume "\<not> i \<le> j"
    then have "j < i" by simp
    from indexOf_SomeD(3) [OF assms(1) Some assms(2) this] assms(3) show False by simp
  qed
  with Some show ?thesis by simp
qed

text \<open>
  A second occurrence of the old hash that starts 64 bytes or more after another one makes
  \<open>patchExeHash\<close> refuse, with the file as it was.
\<close>

lemma patchExeHash_ambiguous:
  assumes "files p = Some buf" and "is_hash old" and "is_hash new" and "old \<noteq> new"
    and "occurs_at old buf i" and "occurs_at old buf j" and "i + 64 \<le> j"
  shows "patchExeHash e files p old new = Inr (files, OldHashAmbiguous)"
proof -
  from assms(2) have ne: "old \<noteq> []" by (auto simp: is_hash_def)
  from indexOf_exists [OF ne _ assms(5), of 0] obtain idx where
    i1: "indexOf buf old 0 = Some idx" and le: "idx \<le> i" by auto
  from le assms(7) have "idx + 64 \<le> j" by simp
  from indexOf_exists [OF ne this assms(6)] obtain k where
    i2: "indexOf buf old (idx + 64) = Some k" by auto
  from assms(1-4) i1 i2 show ?thesis
    by (simp add: patchExeHash_def readFileSync_def Buffer_from_ascii_def)
qed

subsection \<open>The example installation\<close>

lemma paths_distinct_install_at: "paths_distinct (install_at d v vs)"
  by (simp add: paths_distinct_def install_at_def path_join_def asarBackup_def exeBackup_def
      markerPath_def getMarkerPath_def MARKER_FILE_def Let_def)

lemma ex_digest: "first32_hex ex_header = ex_hash"
  by (simp add: first32_hex_def ex_header_def ex_hash_def hex_byte_def hex_digit_def)

lemma ex_read: "files (exePath ex_install) = Some ex_exe \<Longrightarrow>
    readEmbeddedHash files (exePath ex_install) = Inr (HashFound ex_hash 26)"
  by (simp add: readEmbeddedHash_def readFileSync_def indexOf_def ex_exe_def pattern_def ex_hash_def
      slice_def toString_ascii_def is_hash_def is_lower_hex_def Let_def)


lemma ex_paths: "paths_distinct ex_install"
  by (simp add: ex_install_def paths_distinct_install_at)

lemma ex_header_hash:
  assumes "files p = Some (ex_prefix @ h @ rest)" and "length h = 12"
    and "sha256_hex e = first32_hex"
  shows "computeAsarHeaderHash e files p = Inr (first32_hex h)"
proof -
  have r: "readUInt32LE (zero_pad 16 (ex_prefix @ h @ rest)) 12 = Inr 12"
    by (simp add: zero_pad_def ex_prefix_def readUInt32LE_def)
  have z: "zero_pad 12 (drop 16 (ex_prefix @ h @ rest)) = h"
    using assms(2) by (simp add: zero_pad_def ex_prefix_def)
  have c: "computeAsarHeaderHash e files p =
      (if 12 \<le> MAX_LENGTH e \<and> (12::nat) < 2147483648
       then Inr (sha256_hex e (zero_pad 12 (drop 16 (ex_prefix @ h @ rest))))
       else Inl RangeError)"
    using computeAsarHeaderHash_padded [of files p "ex_prefix @ h @ rest" 12 e] assms(1) r
    by blast
  show ?thesis unfolding c z by (simp add: assms(3) MAX_LENGTH_def)
qed


lemma ex_sizes: "length ex_archive = 1000" "length ex_repacked = 1000"
  by (simp_all add: ex_archive_def ex_repacked_def ex_prefix_def ex_header_def ex_header2_def)


lemma ex_files_at:
  "ex_files (asarPath ex_install) = Some ex_archive"
  "ex_files (exePath ex_install) = Some ex_exe"
  "ex_files (asarBackup ex_install) = None"
  "ex_files (exeBackup ex_install) = None"
  "ex_files (markerPath ex_install) = None"
  using ex_paths by (auto simp: ex_files_def paths_distinct_def)

lemma ex_preflight:
  assumes "located e = Inr ex_install" and "\<not> claude_running e" and "locked e = (\<lambda>p. False)"
    and "files (asarPath ex_install) \<noteq> None" and "files (exePath ex_install) \<noteq> None"
    and "files (markerPath ex_install) = None"
  shows "preflight e files True = Inr ex_install"
  using assms
  by (simp add: preflight_def canWrite_def open_rw_def isPatchedOnDisk_def existsSync_def
      markerPath_def)

lemma ex_patch_start:
  assumes "located e = Inr ex_install" and "\<not> claude_running e" and "locked e = (\<lambda>p. False)"
    and "sha256_hex e = first32_hex"
    and "files (asarPath ex_install) = Some ex_archive"
    and "readEmbeddedHash files (exePath ex_install) = Inr (HashFound ex_hash off)"
    and "files (markerPath ex_install) = None"
  shows "patch e files =
           (case createBackup e ex_install files of
              (files1, BackupFailed x) \<Rightarrow> (files1, Inr (PatchFailure (BackupError x)))
            | (files1, _) \<Rightarrow> patch_extract e ex_install ex_hash files1)"
proof -
  from assms(6) have "files (exePath ex_install) \<noteq> None" by (rule readEmbeddedHash_exists)
  then have p: "preflight e files True = Inr ex_install"
    using assms by (intro ex_preflight) simp_all
  have h: "computeAsarHeaderHash e files (asarPath ex_install) = Inr ex_hash"
    using ex_header_hash [of files "asarPath ex_install" ex_header "replicate 972 (CHR 0xFF)" e]
      assms(4,5) ex_digest
    by (simp add: ex_archive_def ex_header_def)
  show ?thesis by (simp add: patch_def p assms(6) h)
qed

lemma ex_reads:
  "readEmbeddedHash ex_files (exePath ex_install) = Inr (HashFound ex_hash 26)"
  by (rule ex_read) (rule ex_files_at)

lemma createBackup_fresh:
  assumes "\<not> (existsSync files (asarBackup i) \<and> existsSync files (exeBackup i))"
    and "files (asarPath i) = Some a" and "files (exePath i) = Some x"
    and "\<not> locked e (asarBackup i)" and "\<not> locked e (exeBackup i)"
    and "asarBackup i \<noteq> exePath i"
  shows "createBackup e i files = (files(asarBackup i \<mapsto> a, exeBackup i \<mapsto> x), BackupCreated)"
  using assms by (auto simp: createBackup_def copyFileSync_def)

lemma ex_patch_extract:
  assumes "asar_extractAll e = (\<lambda>b. Inr [MAIN_VIEW_PATH \<mapsto> ''main()''])"
    and "isCodePatched e = (\<lambda>s. includes_str s ''/*rtl*/'')"
    and "files1 (asarPath i) \<noteq> None"
  shows "patch_extract e i h files1
           = patch_repack e i h [MAIN_VIEW_PATH \<mapsto> inject e ''main()''] files1"
  using assms
  by (auto simp: patch_extract_def includes_str_def indexOf_def)


lemma ex_backup:
  assumes "locked e = (\<lambda>p. False)"
  shows "createBackup e ex_install ex_files
           = (ex_files(asarBackup ex_install \<mapsto> ex_archive, exeBackup ex_install \<mapsto> ex_exe),
              BackupCreated)"
  using ex_paths assms
  by (intro createBackup_fresh) (auto simp: existsSync_def paths_distinct_def ex_files_at)





lemma ex_hashes: "is_hash ex_hash" "is_hash ex_hash2" "ex_hash \<noteq> ex_hash2"
  by (simp_all add: is_hash_def is_lower_hex_def ex_hash_def ex_hash2_def)



lemma ex_backed_up_at:
  "(ex_files(asarBackup ex_install \<mapsto> ex_archive, exeBackup ex_install \<mapsto> ex_exe))
     (exePath ex_install) = Some ex_exe"
  "(ex_files(asarBackup ex_install \<mapsto> ex_archive, exeBackup ex_install \<mapsto> ex_exe))
     (asarPath ex_install) = Some ex_archive"
  using ex_paths by (auto simp: paths_distinct_def ex_files_at)


lemma ex_short_length: "readUInt32LE (zero_pad 16 ex_short) 12 = Inr 8"
  by (simp add: zero_pad_def ex_short_def readUInt32LE_def)

lemma ex_short_padded: "zero_pad 8 (drop 16 ex_short) = ''abcd'' @ [CHR 0x00, CHR 0x00, CHR 0x00, CHR 0x00]"
  by (simp add: zero_pad_def ex_short_def replicate_numeral)

lemma ex_exe_marker:
  "occurs_at pattern ex_exe 2" "\<not> occurs_at pattern ex_exe 0" "\<not> occurs_at pattern ex_exe 1"
  "slice ex_exe 26 90 = ex_hash"
  by (simp_all add: occurs_at_def ex_exe_def pattern_def ex_hash_def slice_def)

lemma less_two: "(\<forall>k<2. P k) \<longleftrightarrow> P 0 \<and> P (Suc 0)"
  by (auto simp: less_2_cases_iff)

section \<open>The properties\<close>

subsection \<open>C1: a failure after the backup step restores the backups\<close>




text \<open>
  The restore can fail, and \<open>patch\<close> does not look: with the archive held by another
  process when the restore runs, \<open>patch\<close> returns the error of the failed repack, and the
  live archive is what the repack left, not the archive from before the patch, which is in
  the backup file.
\<close>

theorem patch_restore_held_example:
  "snd (patch ex_env_held ex_files) = Inr (PatchFailure (RepackFailed ''disk full''))
   \<and> ex_files (asarPath ex_install) = Some ex_archive
   \<and> fst (patch ex_env_held ex_files) (asarPath ex_install) = Some ''PK''
   \<and> fst (patch ex_env_held ex_files) (asarBackup ex_install) = Some ex_archive"
proof -
  define files1 where
    "files1 = ex_files(asarBackup ex_install \<mapsto> ex_archive, exeBackup ex_install \<mapsto> ex_exe)"
  define fm where "fm = files1(asarPath ex_install \<mapsto> ''PK'')"
  have fields: "located ex_env_held = Inr ex_install" "\<not> claude_running ex_env_held"
    "locked ex_env_held = (\<lambda>p. False)" "sha256_hex ex_env_held = first32_hex"
    "asar_extractAll ex_env_held = (\<lambda>b. Inr [MAIN_VIEW_PATH \<mapsto> ''main()''])"
    "isCodePatched ex_env_held = (\<lambda>s. includes_str s ''/*rtl*/'')"
    "asar_createPackage ex_env_held = (\<lambda>t. PackFailed ''disk full'' (Some ''PK''))"
    "locked_on_restore ex_env_held (asarPath ex_install)"
    by (simp_all add: ex_env_held_def ex_env_full_def ex_env_def)
  have "patch ex_env_held ex_files = patch_extract ex_env_held ex_install ex_hash files1"
    using ex_patch_start [of ex_env_held ex_files 26] fields ex_reads ex_backup [of ex_env_held]
    by (simp add: files1_def ex_files_at)
  also have "\<dots> = patch_repack ex_env_held ex_install ex_hash
      [MAIN_VIEW_PATH \<mapsto> inject ex_env_held ''main()''] files1"
    using ex_backed_up_at by (intro ex_patch_extract fields) (simp add: files1_def)
  finally have p: "patch ex_env_held ex_files
      = (fst (restoreBackup (on_restore ex_env_held) ex_install fm),
         Inr (PatchFailure (RepackFailed ''disk full'')))"
    by (simp add: patch_repack_def fields fm_def)
  have k: "fm (asarBackup ex_install) = Some ex_archive" "fm (exeBackup ex_install) = Some ex_exe"
    "fm (asarPath ex_install) = Some ''PK''"
    using ex_paths by (auto simp: fm_def files1_def paths_distinct_def)
  have "restoreBackup (on_restore ex_env_held) ex_install fm
          = (fm, RestoreFailed (FsError EBUSY (asarPath ex_install)))"
    using k fields(8) by (intro restoreBackup_held) (simp_all add: locked_on_restore)
  with p k show ?thesis by (simp add: ex_files_at)
qed

subsection \<open>C2: after a successful patch the two hashes agree\<close>




subsection \<open>C3: the uniqueness guard of the hash rewrite\<close>

text \<open>
  C3. The claim is that \<open>patchExeHash\<close> refuses to write when the old hash occurs more than
  once. The second search starts 64 bytes after the first occurrence, so an occurrence that
  overlaps the first one is not seen: in a buffer of 65 letters \<open>a\<close> the hash of 64 letters
  \<open>a\<close> stands at index 0 and at index 1, and the function rewrites the file.
\<close>

theorem patchExeHash_overlapping_occurrences:
  "is_hash ex_a64 \<and> is_hash ex_b64 \<and> ex_a64 \<noteq> ex_b64
   \<and> occurs_at ex_a64 (ex_a64 @ ''a'') 0 \<and> occurs_at ex_a64 (ex_a64 @ ''a'') 1
   \<and> patchExeHash ex_env [''claude.exe'' \<mapsto> ex_a64 @ ''a''] ''claude.exe'' ex_a64 ex_b64
       = Inr ([''claude.exe'' \<mapsto> ex_b64 @ ''a''], HashPatched)"
  by (simp add: ex_a64_def ex_b64_def is_hash_def is_lower_hex_def occurs_at_def
      patchExeHash_def readFileSync_def writeFileSync_def Buffer_from_ascii_def indexOf_def
      buffer_copy_def ex_env_def)

theorem patchExeHash_overlapping_occurrences_witness:
  "patchExeHash ex_env [''claude.exe'' \<mapsto> ex_a64 @ ''a''] ''claude.exe'' ex_a64 ex_b64
     \<noteq> Inr ([''claude.exe'' \<mapsto> ex_a64 @ ''a''], OldHashAmbiguous)"
  using patchExeHash_overlapping_occurrences by simp

subsection \<open>C4: patch on an installation whose marker is present\<close>

text \<open>
  C4, as the code has it. When the marker file is present, \<open>patch\<close> returns a failure and
  leaves every file as it was. The failure is the one of the first check of \<open>preflight\<close>
  that fails, in the order of the source: the running error when the application is
  running; else the cannot-write error of the archive when the archive cannot be written;
  else the cannot-write error of the executable when the executable cannot be written;
  else, all three checks passed, the already-patched error.
\<close>

theorem patch_marker_present:
  assumes "located e = Inr i" and "files (markerPath i) \<noteq> None"
  shows "patch e files =
           (files,
            Inr (PatchFailure
                  (if claude_running e then ClaudeRunning
                   else if \<not> canWrite e files (asarPath i) then CannotWrite (asarPath i)
                   else if \<not> canWrite e files (exePath i) then CannotWrite (exePath i)
                   else AlreadyPatched)))"
proof -
  from assms(2) have pt: "patched (isPatchedOnDisk e i files)"
    by (auto simp: isPatchedOnDisk_def markerPath_def existsSync_def readFileSync_def Let_def
        split: option.splits)
  have "preflight e files True =
          Inl (if claude_running e then ClaudeRunning
               else if \<not> canWrite e files (asarPath i) then CannotWrite (asarPath i)
               else if \<not> canWrite e files (exePath i) then CannotWrite (exePath i)
               else AlreadyPatched)"
    using assms(1) pt by (simp add: preflight_def)
  then show ?thesis by (simp add: patch_def)
qed

theorem patch_marker_present_witness:
  "located ex_env = Inr ex_install \<and> ex_files_marked (markerPath ex_install) \<noteq> None
   \<and> \<not> claude_running ex_env \<and> canWrite ex_env ex_files_marked (asarPath ex_install)
   \<and> canWrite ex_env ex_files_marked (exePath ex_install)
   \<and> patch ex_env ex_files_marked = (ex_files_marked, Inr (PatchFailure AlreadyPatched))
   \<and> \<not> canWrite (ex_env\<lparr>locked := (\<lambda>p. p = exePath ex_install)\<rparr>) ex_files_marked
         (exePath ex_install)
   \<and> patch (ex_env\<lparr>locked := (\<lambda>p. p = exePath ex_install)\<rparr>) ex_files_marked
       = (ex_files_marked, Inr (PatchFailure (CannotWrite (exePath ex_install))))"
proof -
  have a: "located ex_env = Inr ex_install" by (simp add: ex_env_def)
  have b: "ex_files_marked (markerPath ex_install) \<noteq> None" by (simp add: ex_files_marked_def)
  have c: "\<not> claude_running ex_env" by (simp add: ex_env_def)
  have d: "canWrite ex_env ex_files_marked (asarPath ex_install)"
    "canWrite ex_env ex_files_marked (exePath ex_install)"
    by (simp_all add: canWrite_def open_rw_def ex_env_def)
  have at: "ex_files_marked (asarPath ex_install) = Some ex_archive"
    "ex_files_marked (exePath ex_install) = Some ex_exe"
    using ex_paths by (auto simp: ex_files_marked_def paths_distinct_def ex_files_at)
  have n: "asarPath ex_install \<noteq> exePath ex_install"
    using ex_paths by (simp add: paths_distinct_def)
  have a': "located (ex_env\<lparr>locked := (\<lambda>p. p = exePath ex_install)\<rparr>) = Inr ex_install"
    "\<not> claude_running (ex_env\<lparr>locked := (\<lambda>p. p = exePath ex_install)\<rparr>)"
    by (simp_all add: ex_env_def)
  have d': "canWrite (ex_env\<lparr>locked := (\<lambda>p. p = exePath ex_install)\<rparr>) ex_files_marked
        (asarPath ex_install)"
    "\<not> canWrite (ex_env\<lparr>locked := (\<lambda>p. p = exePath ex_install)\<rparr>) ex_files_marked
        (exePath ex_install)"
    using at n by (simp_all add: canWrite_def open_rw_def)
  from patch_marker_present [of ex_env ex_install ex_files_marked] a b c d
  have 1: "patch ex_env ex_files_marked = (ex_files_marked, Inr (PatchFailure AlreadyPatched))"
    by simp
  from patch_marker_present [of "ex_env\<lparr>locked := (\<lambda>p. p = exePath ex_install)\<rparr>" ex_install
      ex_files_marked] a' b d'
  have 2: "patch (ex_env\<lparr>locked := (\<lambda>p. p = exePath ex_install)\<rparr>) ex_files_marked
       = (ex_files_marked, Inr (PatchFailure (CannotWrite (exePath ex_install))))"
    by simp
  from a b c d 1 d'(2) 2 show ?thesis by blast
qed

text \<open>
  C4 as stated fails: with the marker present and the application running, the error is
  the one of the running check, which comes first.
\<close>

theorem patch_marker_running_counterexample:
  "ex_files_marked (markerPath ex_install) \<noteq> None
   \<and> located (ex_env\<lparr>claude_running := True\<rparr>) = Inr ex_install
   \<and> snd (patch (ex_env\<lparr>claude_running := True\<rparr>) ex_files_marked)
       = Inr (PatchFailure ClaudeRunning)"
  by (simp add: ex_files_marked_def ex_env_def patch_def preflight_def)

subsection \<open>C5: the header hash of a short archive\<close>

text \<open>
  C5, as the code has it. \<open>computeAsarHeaderHash\<close> checks neither the length of the file
  nor the form of the prefix. It throws when the archive cannot be opened. For an archive
  that is there it reads the header length from the first 16 bytes, zero filled where the
  file is shorter; when that length is more than the runtime allocates, or more than
  \<open>readSync\<close> takes (\<open>2^31\<close> and above), it throws the \<open>RangeError\<close> of \<open>Buffer.alloc\<close> or of
  \<open>readSync\<close>, and else it returns the digest of that many bytes from offset 16, zero
  filled where the file ends before.
\<close>

theorem header_hash_unchecked:
  "(files p = None \<longrightarrow> computeAsarHeaderHash e files p = Inl (FsError ENOENT p))
   \<and> (files p = Some dat \<longrightarrow>
        (\<exists>n. readUInt32LE (zero_pad 16 dat) 12 = Inr n
           \<and> computeAsarHeaderHash e files p =
               (if n \<le> MAX_LENGTH e \<and> n < 2147483648
                then Inr (sha256_hex e (zero_pad n (drop 16 dat)))
                else Inl RangeError)))"
proof (intro conjI impI)
  assume "files p = None"
  then show "computeAsarHeaderHash e files p = Inl (FsError ENOENT p)"
    by (simp add: computeAsarHeaderHash_def)
next
  assume a: "files p = Some dat"
  from readUInt32LE_total [of dat] obtain n where n: "readUInt32LE (zero_pad 16 dat) 12 = Inr n"
    by blast
  with computeAsarHeaderHash_padded [of files p dat n e] a
  show "\<exists>n. readUInt32LE (zero_pad 16 dat) 12 = Inr n
           \<and> computeAsarHeaderHash e files p =
               (if n \<le> MAX_LENGTH e \<and> n < 2147483648
                then Inr (sha256_hex e (zero_pad n (drop 16 dat)))
                else Inl RangeError)"
    by blast
qed

theorem header_hash_unchecked_witness:
  "[''app.asar'' \<mapsto> ex_short] ''app.asar'' = Some ex_short
   \<and> length ex_short = 20 \<and> readUInt32LE (zero_pad 16 ex_short) 12 = Inr 8
   \<and> computeAsarHeaderHash ex_env [''app.asar'' \<mapsto> ex_short] ''app.asar''
       = Inr (sha256_hex ex_env (''abcd'' @ [CHR 0x00, CHR 0x00, CHR 0x00, CHR 0x00]))
   \<and> computeAsarHeaderHash ex_env Map.empty ''app.asar'' = Inl (FsError ENOENT ''app.asar'')"
proof -
  have a: "[''app.asar'' \<mapsto> ex_short] ''app.asar'' = Some ex_short" by simp
  have l: "length ex_short = 20" by (simp add: ex_short_def)
  from header_hash_unchecked [of "[''app.asar'' \<mapsto> ex_short]" "''app.asar''" ex_env ex_short] a
  obtain n where "readUInt32LE (zero_pad 16 ex_short) 12 = Inr n"
    and "computeAsarHeaderHash ex_env [''app.asar'' \<mapsto> ex_short] ''app.asar'' =
               (if n \<le> MAX_LENGTH ex_env \<and> n < 2147483648
                then Inr (sha256_hex ex_env (zero_pad n (drop 16 ex_short)))
                else Inl RangeError)"
    by blast
  with ex_short_length ex_short_padded
  have c: "computeAsarHeaderHash ex_env [''app.asar'' \<mapsto> ex_short] ''app.asar''
       = Inr (sha256_hex ex_env (''abcd'' @ [CHR 0x00, CHR 0x00, CHR 0x00, CHR 0x00]))"
    by (simp add: ex_env_def MAX_LENGTH_def)
  from header_hash_unchecked [of Map.empty "''app.asar''" ex_env]
  have d: "computeAsarHeaderHash ex_env Map.empty ''app.asar'' = Inl (FsError ENOENT ''app.asar'')"
    by simp
  from a l ex_short_length c d show ?thesis by blast
qed

text \<open>
  C5 as stated fails: for the empty file, and for a 20-byte file that declares 8 header
  bytes and holds 4, the function returns a digest.
\<close>

theorem header_hash_short_file_counterexample:
  "computeAsarHeaderHash ex_env [''app.asar'' \<mapsto> []] ''app.asar'' = Inr (sha256_hex ex_env [])
   \<and> length ex_short = 20 \<and> readUInt32LE (take 16 ex_short) 12 = Inr 8
   \<and> computeAsarHeaderHash ex_env [''app.asar'' \<mapsto> ex_short] ''app.asar''
       = Inr (sha256_hex ex_env (''abcd'' @ [CHR 0x00, CHR 0x00, CHR 0x00, CHR 0x00]))"
proof -
  have e0: "readUInt32LE (zero_pad 16 []) 12 = Inr 0"
    by (simp add: zero_pad_def readUInt32LE_def replicate_numeral)
  have a: "computeAsarHeaderHash ex_env [''app.asar'' \<mapsto> []] ''app.asar''
             = Inr (sha256_hex ex_env [])"
    using computeAsarHeaderHash_padded [of "[''app.asar'' \<mapsto> []]" "''app.asar''" "[]" 0 ex_env] e0
    by (simp add: ex_env_def zero_pad_def MAX_LENGTH_def)
  have b: "computeAsarHeaderHash ex_env [''app.asar'' \<mapsto> ex_short] ''app.asar''
       = Inr (sha256_hex ex_env (''abcd'' @ [CHR 0x00, CHR 0x00, CHR 0x00, CHR 0x00]))"
    using computeAsarHeaderHash_padded [of "[''app.asar'' \<mapsto> ex_short]" "''app.asar''" ex_short
        8 ex_env] ex_short_length ex_short_padded
    by (simp add: ex_env_def MAX_LENGTH_def)
  have c: "readUInt32LE (take 16 ex_short) 12 = Inr 8"
    by (simp add: ex_short_def readUInt32LE_def)
  from a b c show ?thesis by (simp add: ex_short_def)
qed

subsection \<open>C6: the marker decides the patched state\<close>

text \<open>
  C6. Without the marker file \<open>isPatchedOnDisk\<close> reports not patched; with a marker file
  whose body \<open>JSON.parse\<close> rejects it reports patched, with no info; with a marker file it
  never reports not patched.
\<close>

theorem isPatchedOnDisk_marker:
  "(files (markerPath i) = None \<longrightarrow>
      isPatchedOnDisk e i files = \<lparr>patched = False, info = None\<rparr>)
   \<and> (files (markerPath i) = Some body \<and> json_parse e body = None \<longrightarrow>
      isPatchedOnDisk e i files = \<lparr>patched = True, info = None\<rparr>)
   \<and> (files (markerPath i) \<noteq> None \<longrightarrow> patched (isPatchedOnDisk e i files))"
  by (auto simp: isPatchedOnDisk_def markerPath_def existsSync_def readFileSync_def Let_def
      split: option.splits)

theorem isPatchedOnDisk_marker_witness:
  "ex_files (markerPath ex_install) = None
   \<and> isPatchedOnDisk ex_env ex_install ex_files = \<lparr>patched = False, info = None\<rparr>
   \<and> ex_files_marked (markerPath ex_install) = Some ''not json''
   \<and> json_parse ex_env ''not json'' = None
   \<and> isPatchedOnDisk ex_env ex_install ex_files_marked = \<lparr>patched = True, info = None\<rparr>
   \<and> patched (isPatchedOnDisk ex_env ex_install ex_files_marked)"
proof -
  have a: "ex_files (markerPath ex_install) = None" by (rule ex_files_at)
  have b: "ex_files_marked (markerPath ex_install) = Some ''not json''"
    by (simp add: ex_files_marked_def)
  have c: "json_parse ex_env ''not json'' = None" by (simp add: ex_env_def)
  from isPatchedOnDisk_marker [of ex_files ex_install ex_env] a
  have d: "isPatchedOnDisk ex_env ex_install ex_files = \<lparr>patched = False, info = None\<rparr>"
    by blast
  from isPatchedOnDisk_marker [of ex_files_marked ex_install ex_env "''not json''"] b c
  have e: "isPatchedOnDisk ex_env ex_install ex_files_marked = \<lparr>patched = True, info = None\<rparr>"
    and f: "patched (isPatchedOnDisk ex_env ex_install ex_files_marked)"
    by simp_all
  from a b c d e f show ?thesis by blast
qed

subsection \<open>C7: the header hash of a 1000-byte archive with header length 12\<close>

text \<open>
  C7. For every 1000-byte archive whose little-endian length field at offset 12 holds 12,
  \<open>computeAsarHeaderHash\<close> returns the digest of exactly the 12 bytes from offset 16,
  whatever the other bytes are. The digest is the \<open>sha256_hex\<close> of the environment.
\<close>

theorem header_hash_12:
  assumes "files p = Some dat" and "length dat = 1000" and "readUInt32LE dat 12 = Inr 12"
  shows "computeAsarHeaderHash e files p = Inr (sha256_hex e (slice dat 16 28))"
proof -
  have z: "zero_pad 16 dat = take 16 dat"
    using assms(2) by (simp add: zero_pad_def)
  have "readUInt32LE (take 16 dat) 12 = readUInt32LE dat 12"
    using assms(2) by (simp add: readUInt32LE_def)
  with assms(3) have r: "readUInt32LE (zero_pad 16 dat) 12 = Inr 12"
    by (simp add: z)
  have "zero_pad 12 (drop 16 dat) = slice dat 16 28"
    using assms(2) by (simp add: zero_pad_def slice_def)
  with computeAsarHeaderHash_padded [of files p dat 12 e] assms(1) r show ?thesis
    by (simp add: MAX_LENGTH_def)
qed

theorem header_hash_12_witness:
  "[''app.asar'' \<mapsto> ex_archive] ''app.asar'' = Some ex_archive
   \<and> length ex_archive = 1000
   \<and> readUInt32LE ex_archive 12 = Inr 12
   \<and> slice ex_archive 16 28 = ex_header
   \<and> computeAsarHeaderHash ex_env [''app.asar'' \<mapsto> ex_archive] ''app.asar''
       = Inr (sha256_hex ex_env ex_header)"
proof -
  have a: "[''app.asar'' \<mapsto> ex_archive] ''app.asar'' = Some ex_archive" by simp
  have b: "length ex_archive = 1000" by (rule ex_sizes)
  have c: "readUInt32LE ex_archive 12 = Inr 12"
    by (simp add: ex_archive_def ex_prefix_def readUInt32LE_def)
  have s: "slice ex_archive 16 28 = ex_header"
    by (simp add: ex_archive_def ex_prefix_def slice_def ex_header_def)
  from header_hash_12 [of "[''app.asar'' \<mapsto> ex_archive]" "''app.asar''" ex_archive ex_env] a b c s
  show ?thesis by simp
qed

subsection \<open>C8: reading the hash after the marker\<close>

text \<open>
  C8, as the code has it. \<open>readEmbeddedHash\<close> looks at the first place where the marker
  stands. When the marker stands nowhere, it fails with the not-found error. When the 64
  bytes after the first marker are lowercase hexadecimal characters, it returns them. When
  these bytes, decoded as ASCII (the highest bit of each byte dropped), are not 64 lowercase
  hexadecimal characters, for example with an uppercase letter among them, it fails with
  the invalid-hash error.
\<close>

theorem readEmbeddedHash_first_marker:
  assumes "files p = Some buf"
  shows "((\<forall>j. \<not> occurs_at pattern buf j) \<longrightarrow> readEmbeddedHash files p = Inr HashMissing)
     \<and> (occurs_at pattern buf i \<and> (\<forall>k<i. \<not> occurs_at pattern buf k) \<longrightarrow>
          (is_hash (slice buf (i + 24) (i + 88)) \<longrightarrow>
             readEmbeddedHash files p = Inr (HashFound (slice buf (i + 24) (i + 88)) (i + 24)))
        \<and> (\<not> is_hash (toString_ascii (slice buf (i + 24) (i + 88))) \<longrightarrow>
             readEmbeddedHash files p
               = Inr (HashInvalid (toString_ascii (slice buf (i + 24) (i + 88))))))"
proof (intro conjI impI)
  assume "\<forall>j. \<not> occurs_at pattern buf j"
  with assms show "readEmbeddedHash files p = Inr HashMissing"
    by (rule readEmbeddedHash_absent)
next
  assume a: "occurs_at pattern buf i \<and> (\<forall>k<i. \<not> occurs_at pattern buf k)"
    and h: "is_hash (slice buf (i + 24) (i + 88))"
  from h have "toString_ascii (slice buf (i + 24) (i + 88)) = slice buf (i + 24) (i + 88)"
    by (simp add: is_hash_def toString_ascii_hash)
  with readEmbeddedHash_at_first [of files p buf i] assms a h
  show "readEmbeddedHash files p = Inr (HashFound (slice buf (i + 24) (i + 88)) (i + 24))"
    by (simp add: Let_def)
next
  assume a: "occurs_at pattern buf i \<and> (\<forall>k<i. \<not> occurs_at pattern buf k)"
    and h: "\<not> is_hash (toString_ascii (slice buf (i + 24) (i + 88)))"
  with readEmbeddedHash_at_first [of files p buf i] assms
  show "readEmbeddedHash files p
          = Inr (HashInvalid (toString_ascii (slice buf (i + 24) (i + 88))))"
    by (simp add: Let_def)
qed

theorem readEmbeddedHash_first_marker_witness:
  "[''claude.exe'' \<mapsto> ex_exe] ''claude.exe'' = Some ex_exe
   \<and> occurs_at pattern ex_exe 2 \<and> \<not> occurs_at pattern ex_exe 0 \<and> \<not> occurs_at pattern ex_exe 1
   \<and> is_hash (slice ex_exe 26 90)
   \<and> readEmbeddedHash [''claude.exe'' \<mapsto> ex_exe] ''claude.exe'' = Inr (HashFound ex_hash 26)
   \<and> occurs_at pattern ex_exe_upper 2 \<and> \<not> occurs_at pattern ex_exe_upper 0
   \<and> \<not> occurs_at pattern ex_exe_upper 1
   \<and> \<not> is_hash (toString_ascii (slice ex_exe_upper 26 90))
   \<and> readEmbeddedHash [''claude.exe'' \<mapsto> ex_exe_upper] ''claude.exe''
       = Inr (HashInvalid ''7B2266696C6573223A7B7D7D0000000000000000000000000000000000000000'')
   \<and> readEmbeddedHash [''claude.exe'' \<mapsto> ''MZ''] ''claude.exe'' = Inr HashMissing"
proof -
  have a: "[''claude.exe'' \<mapsto> ex_exe] ''claude.exe'' = Some ex_exe" by simp
  have h: "is_hash (slice ex_exe 26 90)" by (simp add: ex_exe_marker ex_hashes)
  from readEmbeddedHash_first_marker [of "[''claude.exe'' \<mapsto> ex_exe]" "''claude.exe''" ex_exe 2]
    a ex_exe_marker h
  have r1: "readEmbeddedHash [''claude.exe'' \<mapsto> ex_exe] ''claude.exe''
              = Inr (HashFound ex_hash 26)"
    by (simp add: less_two)
  have u: "occurs_at pattern ex_exe_upper 2" "\<not> occurs_at pattern ex_exe_upper 0"
    "\<not> occurs_at pattern ex_exe_upper 1"
    by (simp_all add: occurs_at_def ex_exe_upper_def pattern_def)
  have s: "toString_ascii (slice ex_exe_upper 26 90)
             = ''7B2266696C6573223A7B7D7D0000000000000000000000000000000000000000''"
    by (simp add: ex_exe_upper_def pattern_def slice_def toString_ascii_def)
  have n: "\<not> is_hash (toString_ascii (slice ex_exe_upper 26 90))"
    by (simp add: s is_hash_def is_lower_hex_def)
  from readEmbeddedHash_first_marker [of "[''claude.exe'' \<mapsto> ex_exe_upper]" "''claude.exe''"
      ex_exe_upper 2] u n s
  have r2: "readEmbeddedHash [''claude.exe'' \<mapsto> ex_exe_upper] ''claude.exe''
       = Inr (HashInvalid ''7B2266696C6573223A7B7D7D0000000000000000000000000000000000000000'')"
    by (simp add: less_two)
  have m: "\<forall>j. \<not> occurs_at pattern ''MZ'' j"
    by (auto simp: occurs_at_iff length_pattern)
  from readEmbeddedHash_first_marker [of "[''claude.exe'' \<mapsto> ''MZ'']" "''claude.exe''" "''MZ''"] m
  have r3: "readEmbeddedHash [''claude.exe'' \<mapsto> ''MZ''] ''claude.exe'' = Inr HashMissing"
    by simp
  from a ex_exe_marker(1,2,3) h r1 u n r2 r3 show ?thesis by blast
qed

text \<open>
  C8 as stated fails: a buffer can hold the marker followed by 64 lowercase hexadecimal
  characters and an earlier marker followed by other bytes; the call then fails.
\<close>

theorem readEmbeddedHash_later_marker_counterexample:
  "occurs_at (pattern @ ex_hash) ex_exe_second 28 \<and> is_hash ex_hash
   \<and> readEmbeddedHash [''claude.exe'' \<mapsto> ex_exe_second] ''claude.exe''
       = Inr (HashInvalid (slice ex_exe_second 26 90))"
  by (simp add: occurs_at_def ex_exe_second_def pattern_def ex_hash_def is_hash_def
      is_lower_hex_def readEmbeddedHash_def readFileSync_def indexOf_def slice_def
      toString_ascii_def Let_def)

subsection \<open>C9: a single backup file does not stop the backup\<close>

text \<open>
  C9. \<open>createBackup\<close> skips exactly when both backup files exist. When exactly one exists
  and the copies go through (the live files are there, the backup paths are not locked,
  the paths are those of five different files), it writes the live archive and executable
  over both backup paths, the old backup file included.
\<close>

theorem createBackup_single_backup:
  "(snd (createBackup e i files) = BackupSkipped \<longleftrightarrow>
      existsSync files (asarBackup i) \<and> existsSync files (exeBackup i))
   \<and> (existsSync files (asarBackup i) \<noteq> existsSync files (exeBackup i)
       \<and> files (asarPath i) = Some a \<and> files (exePath i) = Some x
       \<and> \<not> locked e (asarBackup i) \<and> \<not> locked e (exeBackup i) \<and> paths_distinct i \<longrightarrow>
      createBackup e i files = (files(asarBackup i \<mapsto> a, exeBackup i \<mapsto> x), BackupCreated))"
  by (auto simp: createBackup_def copyFileSync_def paths_distinct_def
      split: option.splits sum.splits)

theorem createBackup_single_backup_witness:
  "existsSync ex_files_one (asarBackup ex_install)
   \<and> \<not> existsSync ex_files_one (exeBackup ex_install)
   \<and> ex_files_one (asarPath ex_install) = Some ex_archive
   \<and> ex_files_one (exePath ex_install) = Some ex_exe
   \<and> \<not> locked ex_env (asarBackup ex_install) \<and> \<not> locked ex_env (exeBackup ex_install)
   \<and> paths_distinct ex_install
   \<and> snd (createBackup ex_env ex_install ex_files_one) \<noteq> BackupSkipped
   \<and> createBackup ex_env ex_install ex_files_one
       = (ex_files_one(asarBackup ex_install \<mapsto> ex_archive, exeBackup ex_install \<mapsto> ex_exe),
          BackupCreated)"
proof -
  have a: "existsSync ex_files_one (asarBackup ex_install)"
    "\<not> existsSync ex_files_one (exeBackup ex_install)"
    "ex_files_one (asarPath ex_install) = Some ex_archive"
    "ex_files_one (exePath ex_install) = Some ex_exe"
    using ex_paths
    by (auto simp: ex_files_one_def existsSync_def paths_distinct_def ex_files_at)
  have l: "\<not> locked ex_env (asarBackup ex_install)" "\<not> locked ex_env (exeBackup ex_install)"
    by (simp_all add: ex_env_def)
  note th = createBackup_single_backup [of ex_env ex_install ex_files_one ex_archive ex_exe]
  from th a l ex_paths
  have c: "createBackup ex_env ex_install ex_files_one
       = (ex_files_one(asarBackup ex_install \<mapsto> ex_archive, exeBackup ex_install \<mapsto> ex_exe),
          BackupCreated)"
    by blast
  from th a have s: "snd (createBackup ex_env ex_install ex_files_one) \<noteq> BackupSkipped"
    by blast
  from a l ex_paths c s show ?thesis by blast
qed

subsection \<open>C10: a marker that occurs more than once\<close>

text \<open>
  C10, as the code has it. When the marker occurs more than once, \<open>readEmbeddedHash\<close>
  makes no check of it: the first occurrence alone decides the result. The call succeeds
  with the 64 bytes after the first occurrence when they are lowercase hexadecimal
  characters, and fails with the invalid-hash error when, decoded as ASCII, they are not.
\<close>

theorem readEmbeddedHash_repeated_marker:
  assumes "files p = Some buf" and "occurs_at pattern buf i" and "occurs_at pattern buf j"
    and "i < j" and "\<forall>k<i. \<not> occurs_at pattern buf k"
  shows "readEmbeddedHash files p =
           Inr (if is_hash (toString_ascii (slice buf (i + 24) (i + 88)))
                then HashFound (toString_ascii (slice buf (i + 24) (i + 88))) (i + 24)
                else HashInvalid (toString_ascii (slice buf (i + 24) (i + 88))))
         \<and> (is_hash (slice buf (i + 24) (i + 88)) \<longrightarrow>
              readEmbeddedHash files p = Inr (HashFound (slice buf (i + 24) (i + 88)) (i + 24)))"
proof -
  have r: "readEmbeddedHash files p =
           Inr (if is_hash (toString_ascii (slice buf (i + 24) (i + 88)))
                then HashFound (toString_ascii (slice buf (i + 24) (i + 88))) (i + 24)
                else HashInvalid (toString_ascii (slice buf (i + 24) (i + 88))))"
    using readEmbeddedHash_at_first [of files p buf i] assms(1,2,5) by (simp add: Let_def)
  have "toString_ascii (slice buf (i + 24) (i + 88)) = slice buf (i + 24) (i + 88)"
    if "is_hash (slice buf (i + 24) (i + 88))"
    using that by (simp add: is_hash_def toString_ascii_hash)
  with r show ?thesis by simp
qed

theorem readEmbeddedHash_repeated_marker_witness:
  "[''claude.exe'' \<mapsto> ex_exe_twice] ''claude.exe'' = Some ex_exe_twice
   \<and> occurs_at pattern ex_exe_twice 2 \<and> occurs_at pattern ex_exe_twice 93 \<and> (2::nat) < 93
   \<and> \<not> occurs_at pattern ex_exe_twice 0 \<and> \<not> occurs_at pattern ex_exe_twice 1
   \<and> is_hash (slice ex_exe_twice 26 90)
   \<and> readEmbeddedHash [''claude.exe'' \<mapsto> ex_exe_twice] ''claude.exe''
       = Inr (HashFound ex_hash 26)"
proof -
  have a: "[''claude.exe'' \<mapsto> ex_exe_twice] ''claude.exe'' = Some ex_exe_twice" by simp
  have o: "occurs_at pattern ex_exe_twice 2" "occurs_at pattern ex_exe_twice 93"
    "\<not> occurs_at pattern ex_exe_twice 0" "\<not> occurs_at pattern ex_exe_twice 1"
    by (simp_all add: occurs_at_def ex_exe_twice_def ex_exe_def pattern_def ex_hash_def)
  have s: "slice ex_exe_twice 26 90 = ex_hash"
    by (simp add: ex_exe_twice_def ex_exe_def pattern_def ex_hash_def slice_def)
  then have h: "is_hash (slice ex_exe_twice 26 90)" by (simp add: ex_hashes)
  have q: "\<forall>k<2. \<not> occurs_at pattern ex_exe_twice k" using o by (simp add: less_two)
  have lt: "(2::nat) < 93" by simp
  from readEmbeddedHash_repeated_marker [of "[''claude.exe'' \<mapsto> ex_exe_twice]" "''claude.exe''"
      ex_exe_twice 2 93] a o(1,2) lt q
  have "is_hash (slice ex_exe_twice (2 + 24) (2 + 88)) \<longrightarrow>
          readEmbeddedHash [''claude.exe'' \<mapsto> ex_exe_twice] ''claude.exe''
            = Inr (HashFound (slice ex_exe_twice (2 + 24) (2 + 88)) (2 + 24))"
    by blast
  with h s have "readEmbeddedHash [''claude.exe'' \<mapsto> ex_exe_twice] ''claude.exe''
          = Inr (HashFound ex_hash 26)"
    by simp
  with a o h show ?thesis by simp
qed

text \<open>
  C10 as stated fails: with the marker twice in a row, the 64 bytes after the first
  occurrence begin with the second marker, and the call does not succeed.
\<close>

theorem readEmbeddedHash_doubled_marker_counterexample:
  "occurs_at pattern ex_exe_doubled 0 \<and> occurs_at pattern ex_exe_doubled 24
   \<and> readEmbeddedHash [''claude.exe'' \<mapsto> ex_exe_doubled] ''claude.exe''
       = Inr (HashInvalid (slice ex_exe_doubled 24 88))"
  by (simp add: occurs_at_def ex_exe_doubled_def pattern_def ex_hash_def
      readEmbeddedHash_def readFileSync_def indexOf_def slice_def
      toString_ascii_def is_hash_def is_lower_hex_def Let_def)

end
